theory Spec2Isabelle
  imports Main "HOL-Library.Word"
begin

unbundle bit_operations_syntax

section \<open>The Mach-O binding interpreter of cle/backends/macho/binding.py\<close>

text \<open>
  A shallow embedding of the binding-opcode interpreter. Python's unbounded integers are
  \<open>int\<close>; the quantities that the code only ever counts upwards from zero or masks out
  of a byte (the blob cursor, the immediate nibble, the segment index, the binding type,
  the symbol flags) are \<open>nat\<close>. A blob is a list of bytes. Exceptions are values: a
  function that can raise returns \<open>Inl (e, b)\<close>, where \<open>b\<close> is the image as the code has
  mutated it in place up to the raise.
\<close>

subsection \<open>LEB128 decoders\<close>

type_synonym byte = "8 word"

text \<open>
  The \<^verbatim>\<open>while index < len(blob)\<close> loop of \<^verbatim>\<open>read_uleb\<close>, with its three
  loop variables as arguments; it returns the result and the final index.
\<close>

function uleb_loop :: "byte list \<Rightarrow> int \<Rightarrow> nat \<Rightarrow> nat \<Rightarrow> int \<times> nat" where
  "uleb_loop blob result shift index =
     (if index < length blob then
        (let b = uint (blob ! index);
             result' = result OR push_bit shift (b AND 0x7f);
             shift' = shift + 7;
             index' = index + 1
         in if b AND 0x80 = 0 then (result', index')
            else uleb_loop blob result' shift' index')
      else (result, index))"
  by pat_completeness auto
termination
  by (relation "measure (\<lambda>(blob, result, shift, index). length blob - index)") auto

declare uleb_loop.simps [simp del]

definition read_uleb :: "byte list \<Rightarrow> nat \<Rightarrow> int \<times> nat" where
  "read_uleb blob offset =
     (let (result, index) = uleb_loop blob 0 0 offset in (result, index - offset))"

text \<open>The loop of \<^verbatim>\<open>read_sleb\<close>: as above, with the sign extension at the last byte.\<close>

function sleb_loop :: "byte list \<Rightarrow> int \<Rightarrow> nat \<Rightarrow> nat \<Rightarrow> int \<times> nat" where
  "sleb_loop blob result shift index =
     (if index < length blob then
        (let b = uint (blob ! index);
             result' = result OR push_bit shift (b AND 0x7f);
             shift' = shift + 7;
             index' = index + 1
         in if b AND 0x80 = 0 then
              (if b AND 0x40 \<noteq> 0 then (result' - push_bit shift' 1, index')
               else (result', index'))
            else sleb_loop blob result' shift' index')
      else (result, index))"
  by pat_completeness auto
termination
  by (relation "measure (\<lambda>(blob, result, shift, index). length blob - index)") auto

declare sleb_loop.simps [simp del]

definition read_sleb :: "byte list \<Rightarrow> nat \<Rightarrow> int \<times> nat" where
  "read_sleb blob offset =
     (let (result, index) = sleb_loop blob 0 0 offset in (result, index - offset))"

subsection \<open>The standard LEB128 encoders\<close>

text \<open>
  The encoders are not code of the repository: they are the standard ones (DWARF,
  appendix C), which the round-trip property of the decoders is stated against. Each step
  emits the low seven bits of the value (\<open>mod 128\<close>), shifts the value right by seven bits
  (\<open>div 128\<close>, which rounds down as an arithmetic shift does), and sets the high bit of the
  byte (\<open>+ 128\<close>) when more bytes follow. The unsigned encoder stops when nothing is left;
  the signed one stops when what is left is the sign extension of bit 6 of the byte.
\<close>

function encode_uleb :: "nat \<Rightarrow> byte list" where
  "encode_uleb v =
     (let byte = v mod 128;
          v' = v div 128
      in if v' \<noteq> 0 then of_nat (byte + 128) # encode_uleb v' else [of_nat byte])"
  by pat_completeness auto
termination
  by (relation "measure id") auto

declare encode_uleb.simps [simp del]

lemma sleb_measure_aux:
  fixes v q m :: int
  assumes "v = q * 128 + m" "0 \<le> m" "m < 128"
    and "\<not> ((q = 0 \<and> m < 64) \<or> (q = - 1 \<and> m \<ge> 64))"
  shows "\<bar>q\<bar> < \<bar>v\<bar>"
  using assms by linarith

lemma sleb_measure:
  fixes v :: int
  assumes "\<not> ((v div 128 = 0 \<and> v mod 128 < 64) \<or> (v div 128 = - 1 \<and> v mod 128 \<ge> 64))"
  shows "\<bar>v div 128\<bar> < \<bar>v\<bar>"
proof (rule sleb_measure_aux [OF _ _ _ assms])
  show "v = v div 128 * 128 + v mod 128" by (simp only: div_mult_mod_eq)
  show "0 \<le> v mod 128" by simp
  show "v mod 128 < 128" by simp
qed

function encode_sleb :: "int \<Rightarrow> byte list" where
  "encode_sleb v =
     (let byte = v mod 128;
          v' = v div 128
      in if (v' = 0 \<and> byte < 64) \<or> (v' = - 1 \<and> byte \<ge> 64) then [word_of_int byte]
         else word_of_int (byte + 128) # encode_sleb v')"
  by pat_completeness auto
termination
proof (relation "measure (\<lambda>v. nat \<bar>v\<bar>)", goal_cases)
  case 1
  show ?case by simp
next
  case (2 v byte v')
  then have "\<bar>v div 128\<bar> < \<bar>v\<bar>" by (intro sleb_measure) simp
  with 2 show ?case by simp
qed

declare encode_sleb.simps [simp del]

subsection \<open>The binding state\<close>

text \<open>
  \<^verbatim>\<open>class BindingState\<close>. The field \<^verbatim>\<open>done\<close> is \<open>done_flag\<close> here. The field
  \<^verbatim>\<open>bind_handler\<close> holds a function of the state itself, so it is not a field of the
  record: every function that calls \<^verbatim>\<open>s.bind_handler\<close> takes it as its first argument.
\<close>

record BindingState =
  index :: nat
  done_flag :: bool
  lib_ord :: int
  sym_name :: string
  sym_flags :: nat
  binding_type :: nat
  addend :: int
  segment_index :: nat
  address :: int
  seg_end_address :: int
  wraparound :: int
  sizeof_intptr_t :: int

definition BindingState_init :: "bool \<Rightarrow> BindingState" where
  "BindingState_init is_64 =
     \<lparr>index = 0, done_flag = False, lib_ord = 0, sym_name = [], sym_flags = 0,
      binding_type = 0, addend = 0, segment_index = 0, address = 0, seg_end_address = 0,
      wraparound = 2 ^ 64, sizeof_intptr_t = (if is_64 then 8 else 4)\<rparr>"

definition add_address_ov :: "BindingState \<Rightarrow> int \<Rightarrow> int \<Rightarrow> BindingState" where
  "add_address_ov s address' addend' =
     (let tmp = address' + addend';
          tmp = (if tmp > wraparound s then tmp - wraparound s else tmp)
      in s\<lparr>address := tmp\<rparr>)"

subsection \<open>The image\<close>

text \<open>
  The image (\<^verbatim>\<open>binary\<close>) as the interpreter uses it. Symbols are objects that the
  symbol collection and the ordered-symbol list both refer to, and the fixup handler
  mutates them in place, so they live in a store (\<open>symbol_heap\<close>) and the two collections
  hold references into it. The image memory is not part of this file's source: it is
  represented by the sequence of \<^verbatim>\<open>store(rva, bytes)\<close> calls issued to it. The address
  translator (\<^verbatim>\<open>AT.from_lva(location, binary).to_rva()\<close>) is not part of it either and
  is taken as a parameter of the image, \<open>lva_to_rva\<close>.
\<close>

record Segment =
  vaddr :: int
  memsize :: int

record Symbol =
  name :: string
  library_ordinal :: int
  is_stab :: bool
  linked_addr :: int
  bind_xrefs :: "int list"

datatype byteorder = LittleEndian | BigEndian

record binary =
  segments :: "Segment list"
  symbol_heap :: "Symbol list"
  symbols :: "nat list"
  ordered_symbols :: "nat list"
  memory :: "(int \<times> byte list) list"
  arch_bits :: nat
  struct_byteorder :: byteorder
  lva_to_rva :: "int \<Rightarrow> int"

text \<open>
  The exceptions of the code: \<^verbatim>\<open>CLEInvalidBinaryError\<close>, Python's \<^verbatim>\<open>IndexError\<close> (an
  index past the end of a list or of the blob) and \<^verbatim>\<open>struct.error\<close> (a value that
  \<^verbatim>\<open>struct.pack\<close> cannot represent in the format). \<open>AssertionError\<close> is raised by
  nothing in the code; it is here for the assertions that the properties below insert.
\<close>

datatype error = CLEInvalidBinaryError | IndexError | StructError | AssertionError

type_synonym 'a result = "(error \<times> binary) + 'a"

type_synonym bind_handler = "BindingState \<Rightarrow> binary \<Rightarrow> binary result"

type_synonym opcode_handler =
  "BindingState \<Rightarrow> binary \<Rightarrow> nat \<Rightarrow> byte list \<Rightarrow> (BindingState \<times> binary) result"

text \<open>
  Modelled from the spec: the constructor \<^verbatim>\<open>BindingSymbol(binary, name, lib_ord)\<close> of
  \<^verbatim>\<open>symbol.py\<close>, which is not among the sources. The spec gives a placeholder its name
  and library ordinal, and has a bind to it write \<open>0x0\<close> (unresolved), that is
  \<open>linked_addr = 0\<close>; it is not a stab and starts with no cross references.
\<close>

definition BindingSymbol :: "string \<Rightarrow> int \<Rightarrow> Symbol" where
  "BindingSymbol n lo =
     \<lparr>name = n, library_ordinal = lo, is_stab = False, linked_addr = 0, bind_xrefs = []\<rparr>"

text \<open>
  Python's \<^verbatim>\<open>struct.pack(byteorder + "Q", v)\<close> (width 8) and
  \<^verbatim>\<open>struct.pack(byteorder + "I", v)\<close> (width 4): the unsigned value in the given byte
  order, and \<^verbatim>\<open>struct.error\<close> (here \<open>None\<close>) for a value outside the format's range.
\<close>

definition struct_pack :: "byteorder \<Rightarrow> nat \<Rightarrow> int \<Rightarrow> byte list option" where
  "struct_pack bo w v =
     (if 0 \<le> v \<and> v < 2 ^ (8 * w) then
        (let le = map (\<lambda>k. word_of_int (v div 256 ^ k)) [0..<w]
         in Some (case bo of LittleEndian \<Rightarrow> le | BigEndian \<Rightarrow> rev le))
      else None)"

subsection \<open>The fixup handler\<close>

text \<open>The \<^verbatim>\<open>filter\<close> of \<^verbatim>\<open>default_binding_handler\<close>, over references.\<close>

definition symbol_matches :: "BindingState \<Rightarrow> binary \<Rightarrow> nat list" where
  "symbol_matches state b =
     filter (\<lambda>r. name (symbol_heap b ! r) = sym_name state
                \<and> library_ordinal (symbol_heap b ! r) = lib_ord state
                \<and> \<not> is_stab (symbol_heap b ! r)) (symbols b)"

text \<open>
  The two statements that end each of the three branches of the handler:
  \<^verbatim>\<open>binary.memory.store(AT.from_lva(loc, binary).to_rva(), struct.pack(fmt, val))\<close> and
  \<^verbatim>\<open>symbol.bind_xrefs.append(loc)\<close>. Python evaluates the arguments first, so a
  \<^verbatim>\<open>struct.error\<close> leaves the memory untouched.
\<close>

definition store_and_xref :: "binary \<Rightarrow> nat \<Rightarrow> int \<Rightarrow> nat \<Rightarrow> int \<Rightarrow> binary result" where
  "store_and_xref b symbol loc w val =
     (case struct_pack (struct_byteorder b) w val of
        None \<Rightarrow> Inl (StructError, b)
      | Some bytes \<Rightarrow>
          Inr (b\<lparr>memory := memory b @ [(lva_to_rva b loc, bytes)],
                 symbol_heap := (symbol_heap b)
                   [symbol := (symbol_heap b ! symbol)
                      \<lparr>bind_xrefs := bind_xrefs (symbol_heap b ! symbol) @ [loc]\<rparr>]\<rparr>))"

definition default_binding_handler :: bind_handler where
  "default_binding_handler state b =
     (let matches = symbol_matches state b in
      if length matches > 1 then Inl (CLEInvalidBinaryError, b)
      else
        (let (b, matches) =
               (if length matches < 1 then
                  (let r = length (symbol_heap b)
                   in (b\<lparr>symbol_heap :=
                            symbol_heap b @ [BindingSymbol (sym_name state) (lib_ord state)],
                          symbols := symbols b @ [r],
                          ordered_symbols := ordered_symbols b @ [r]\<rparr>, [r]))
                else (b, matches));
             symbol = hd matches;
             location = address state;
             val = (if linked_addr (symbol_heap b ! symbol) \<noteq> 0
                    then linked_addr (symbol_heap b ! symbol) + addend state else 0)
         in if binding_type state = 1 then
              store_and_xref b symbol location (if arch_bits b = 64 then 8 else 4) val
            else if binding_type state = 2 then
              (let location_32 = location mod 2 ^ 32;
                   value_32 = val mod 2 ^ 32
               in store_and_xref b symbol location_32 4 value_32)
            else if binding_type state = 3 then
              (let location_32 = location mod 2 ^ 32;
                   value_32 = (val - (location + 4)) mod 2 ^ 32
               in store_and_xref b symbol location_32 4 value_32)
            else Inl (CLEInvalidBinaryError, b)))"

subsection \<open>Opcode handlers\<close>

text \<open>The constants of \<^verbatim>\<open>macholib.mach_o\<close> (Apple's \<^verbatim>\<open>mach-o/loader.h\<close>).\<close>

abbreviation (input) "BIND_OPCODE_MASK \<equiv> (0xF0 :: nat)"
abbreviation (input) "BIND_IMMEDIATE_MASK \<equiv> (0x0F :: nat)"
abbreviation (input) "BIND_OPCODE_DONE \<equiv> (0x00 :: nat)"
abbreviation (input) "BIND_OPCODE_SET_DYLIB_ORDINAL_IMM \<equiv> (0x10 :: nat)"
abbreviation (input) "BIND_OPCODE_SET_DYLIB_ORDINAL_ULEB \<equiv> (0x20 :: nat)"
abbreviation (input) "BIND_OPCODE_SET_DYLIB_SPECIAL_IMM \<equiv> (0x30 :: nat)"
abbreviation (input) "BIND_OPCODE_SET_SYMBOL_TRAILING_FLAGS_IMM \<equiv> (0x40 :: nat)"
abbreviation (input) "BIND_OPCODE_SET_TYPE_IMM \<equiv> (0x50 :: nat)"
abbreviation (input) "BIND_OPCODE_SET_ADDEND_SLEB \<equiv> (0x60 :: nat)"
abbreviation (input) "BIND_OPCODE_SET_SEGMENT_AND_OFFSET_ULEB \<equiv> (0x70 :: nat)"
abbreviation (input) "BIND_OPCODE_ADD_ADDR_ULEB \<equiv> (0x80 :: nat)"
abbreviation (input) "BIND_OPCODE_DO_BIND \<equiv> (0x90 :: nat)"
abbreviation (input) "BIND_OPCODE_DO_BIND_ADD_ADDR_ULEB \<equiv> (0xA0 :: nat)"
abbreviation (input) "BIND_OPCODE_DO_BIND_ADD_ADDR_IMM_SCALED \<equiv> (0xB0 :: nat)"
abbreviation (input) "BIND_OPCODE_DO_BIND_ULEB_TIMES_SKIPPING_ULEB \<equiv> (0xC0 :: nat)"

definition check_address_bounds :: "BindingState \<Rightarrow> binary \<Rightarrow> unit result" where
  "check_address_bounds s b =
     (if address s \<ge> seg_end_address s then Inl (CLEInvalidBinaryError, b) else Inr ())"

definition n_opcode_done :: opcode_handler where
  "n_opcode_done s b i blob = Inr (s\<lparr>done_flag := True\<rparr>, b)"

definition n_opcode_set_dylib_ordinal_imm :: opcode_handler where
  "n_opcode_set_dylib_ordinal_imm s b i blob = Inr (s\<lparr>lib_ord := int i\<rparr>, b)"

definition n_opcode_set_dylib_ordinal_uleb :: opcode_handler where
  "n_opcode_set_dylib_ordinal_uleb s b i blob =
     (let uleb = read_uleb blob (index s);
          s = s\<lparr>lib_ord := fst uleb\<rparr>;
          s = s\<lparr>index := index s + snd uleb\<rparr>
      in Inr (s, b))"

definition n_opcode_set_dylib_special_imm :: opcode_handler where
  "n_opcode_set_dylib_special_imm s b i blob =
     (if i = 0 then Inr (s\<lparr>lib_ord := 0\<rparr>, b)
      else Inr (s\<lparr>lib_ord := int (i OR BIND_OPCODE_MASK) - 256\<rparr>, b))"

text \<open>
  The loop \<^verbatim>\<open>while blob[s.index] != 0\<close> of \<^verbatim>\<open>n_opcode_set_trailing_flags_imm\<close>.
  \<^verbatim>\<open>blob[s.index]\<close> raises \<^verbatim>\<open>IndexError\<close> at the end of the blob: \<open>None\<close>.
\<close>

function name_loop :: "byte list \<Rightarrow> BindingState \<Rightarrow> BindingState option" where
  "name_loop blob s =
     (if index s < length blob then
        (if blob ! index s \<noteq> 0 then
           name_loop blob
             (s\<lparr>sym_name := sym_name s @ [char_of (unat (blob ! index s))],
                index := index s + 1\<rparr>)
         else Some s)
      else None)"
  by pat_completeness auto
termination
  by (relation "measure (\<lambda>(blob, s). length blob - index s)") auto

declare name_loop.simps [simp del]

definition n_opcode_set_trailing_flags_imm :: opcode_handler where
  "n_opcode_set_trailing_flags_imm s b i blob =
     (let s = s\<lparr>sym_name := []\<rparr>;
          s = s\<lparr>sym_flags := i\<rparr>
      in case name_loop blob s of
           None \<Rightarrow> Inl (IndexError, b)
         | Some s \<Rightarrow> Inr (s\<lparr>index := index s + 1\<rparr>, b))"

definition n_opcode_set_type_imm :: opcode_handler where
  "n_opcode_set_type_imm s b i blob = Inr (s\<lparr>binding_type := i\<rparr>, b)"

definition n_opcode_set_addend_sleb :: opcode_handler where
  "n_opcode_set_addend_sleb s b i blob =
     (let sleb = read_sleb blob (index s);
          s = s\<lparr>addend := fst sleb\<rparr>;
          s = s\<lparr>index := index s + snd sleb\<rparr>
      in Inr (s, b))"

definition n_opcode_set_segment_and_offset_uleb :: opcode_handler where
  "n_opcode_set_segment_and_offset_uleb s b i blob =
     (let s = s\<lparr>segment_index := i\<rparr>;
          uleb = read_uleb blob (index s);
          s = s\<lparr>index := index s + snd uleb\<rparr>
      in if segment_index s < length (segments b) then
           (let seg = segments b ! segment_index s;
                s = add_address_ov s (vaddr seg) (fst uleb);
                s = s\<lparr>seg_end_address := vaddr seg + memsize seg\<rparr>
            in Inr (s, b))
         else Inl (IndexError, b))"

definition l_opcode_set_segment_and_offset_uleb :: opcode_handler where
  "l_opcode_set_segment_and_offset_uleb s b i blob =
     (let uleb = read_uleb blob (index s)
      in if i < length (segments b) then
           (let seg = segments b ! i;
                s = add_address_ov s (vaddr seg) (fst uleb);
                s = s\<lparr>index := index s + snd uleb\<rparr>
            in Inr (s, b))
         else Inl (IndexError, b))"

definition n_opcode_add_addr_uleb :: opcode_handler where
  "n_opcode_add_addr_uleb s b i blob =
     (let uleb = read_uleb blob (index s);
          s = add_address_ov s (address s) (fst uleb);
          s = s\<lparr>index := index s + snd uleb\<rparr>
      in Inr (s, b))"

definition n_opcode_do_bind :: "bind_handler \<Rightarrow> opcode_handler" where
  "n_opcode_do_bind bind_handler s b i blob =
     (case check_address_bounds s b of
        Inl e \<Rightarrow> Inl e
      | Inr _ \<Rightarrow>
          (case bind_handler s b of
             Inl e \<Rightarrow> Inl e
           | Inr b \<Rightarrow> Inr (add_address_ov s (address s) (sizeof_intptr_t s), b)))"

definition l_opcode_do_bind :: "bind_handler \<Rightarrow> opcode_handler" where
  "l_opcode_do_bind bind_handler s b i blob =
     (case bind_handler s b of
        Inl e \<Rightarrow> Inl e
      | Inr b \<Rightarrow> Inr (s, b))"

definition n_opcode_do_bind_add_addr_uleb :: "bind_handler \<Rightarrow> opcode_handler" where
  "n_opcode_do_bind_add_addr_uleb bind_handler s b i blob =
     (let uleb = read_uleb blob (index s)
      in if address s \<ge> seg_end_address s then Inl (CLEInvalidBinaryError, b)
         else
           (let s = s\<lparr>index := index s + snd uleb\<rparr>
            in case bind_handler s b of
                 Inl e \<Rightarrow> Inl e
               | Inr b \<Rightarrow>
                   Inr (add_address_ov s (address s) (fst uleb + sizeof_intptr_t s), b)))"

definition n_opcode_do_bind_add_addr_imm_scaled :: "bind_handler \<Rightarrow> opcode_handler" where
  "n_opcode_do_bind_add_addr_imm_scaled bind_handler s b i blob =
     (if address s \<ge> seg_end_address s then Inl (CLEInvalidBinaryError, b)
      else
        (case bind_handler s b of
           Inl e \<Rightarrow> Inl e
         | Inr b \<Rightarrow>
             Inr (add_address_ov s (address s)
                    ((int i * sizeof_intptr_t s) + sizeof_intptr_t s), b)))"

text \<open>
  The \<^verbatim>\<open>for i in range(0, count[0])\<close> loop of
  \<^verbatim>\<open>n_opcode_do_bind_uleb_times_skipping_uleb\<close>, by recursion on the iterations left.
\<close>

fun bind_times ::
  "bind_handler \<Rightarrow> nat \<Rightarrow> int \<Rightarrow> BindingState \<Rightarrow> binary \<Rightarrow> (BindingState \<times> binary) result"
where
  "bind_times bind_handler 0 skip s b = Inr (s, b)"
| "bind_times bind_handler (Suc n) skip s b =
     (if address s \<ge> seg_end_address s then Inl (CLEInvalidBinaryError, b)
      else
        (case bind_handler s b of
           Inl e \<Rightarrow> Inl e
         | Inr b \<Rightarrow>
             bind_times bind_handler n skip
               (add_address_ov s (address s) (skip + sizeof_intptr_t s)) b))"

definition n_opcode_do_bind_uleb_times_skipping_uleb :: "bind_handler \<Rightarrow> opcode_handler" where
  "n_opcode_do_bind_uleb_times_skipping_uleb bind_handler s b i blob =
     (let count = read_uleb blob (index s);
          s = s\<lparr>index := index s + snd count\<rparr>;
          skip = read_uleb blob (index s);
          s = s\<lparr>index := index s + snd skip\<rparr>
      in bind_times bind_handler (nat (fst count)) (fst skip) s b)"

subsection \<open>The dispatcher and the two entry points\<close>

text \<open>
  The two handler tables that \<^verbatim>\<open>do_normal_bind\<close> and \<^verbatim>\<open>do_lazy_bind\<close> pass to
  \<^verbatim>\<open>_do_bind_generic\<close> as \<^verbatim>\<open>opcode_dict\<close>; \<open>None\<close> is Python's \<^verbatim>\<open>KeyError\<close>. The
  handlers that call \<^verbatim>\<open>s.bind_handler\<close> receive it as their first argument.
\<close>

datatype mode = Normal | Lazy

definition opcode_dict :: "mode \<Rightarrow> nat \<Rightarrow> (bind_handler \<Rightarrow> opcode_handler) option" where
  "opcode_dict m opcode =
     (case m of
        Normal \<Rightarrow>
          (if opcode = BIND_OPCODE_DONE then Some (\<lambda>h. n_opcode_done)
           else if opcode = BIND_OPCODE_SET_DYLIB_ORDINAL_IMM then Some (\<lambda>h. n_opcode_set_dylib_ordinal_imm)
           else if opcode = BIND_OPCODE_SET_DYLIB_ORDINAL_ULEB then Some (\<lambda>h. n_opcode_set_dylib_ordinal_uleb)
           else if opcode = BIND_OPCODE_SET_DYLIB_SPECIAL_IMM then Some (\<lambda>h. n_opcode_set_dylib_special_imm)
           else if opcode = BIND_OPCODE_SET_SYMBOL_TRAILING_FLAGS_IMM then Some (\<lambda>h. n_opcode_set_trailing_flags_imm)
           else if opcode = BIND_OPCODE_SET_TYPE_IMM then Some (\<lambda>h. n_opcode_set_type_imm)
           else if opcode = BIND_OPCODE_SET_ADDEND_SLEB then Some (\<lambda>h. n_opcode_set_addend_sleb)
           else if opcode = BIND_OPCODE_SET_SEGMENT_AND_OFFSET_ULEB then Some (\<lambda>h. n_opcode_set_segment_and_offset_uleb)
           else if opcode = BIND_OPCODE_ADD_ADDR_ULEB then Some (\<lambda>h. n_opcode_add_addr_uleb)
           else if opcode = BIND_OPCODE_DO_BIND then Some n_opcode_do_bind
           else if opcode = BIND_OPCODE_DO_BIND_ADD_ADDR_ULEB then Some n_opcode_do_bind_add_addr_uleb
           else if opcode = BIND_OPCODE_DO_BIND_ADD_ADDR_IMM_SCALED then Some n_opcode_do_bind_add_addr_imm_scaled
           else if opcode = BIND_OPCODE_DO_BIND_ULEB_TIMES_SKIPPING_ULEB then Some n_opcode_do_bind_uleb_times_skipping_uleb
           else None)
      | Lazy \<Rightarrow>
          (if opcode = BIND_OPCODE_DONE then Some (\<lambda>h. n_opcode_done)
           else if opcode = BIND_OPCODE_SET_DYLIB_ORDINAL_IMM then Some (\<lambda>h. n_opcode_set_dylib_ordinal_imm)
           else if opcode = BIND_OPCODE_SET_DYLIB_ORDINAL_ULEB then Some (\<lambda>h. n_opcode_set_dylib_ordinal_uleb)
           else if opcode = BIND_OPCODE_SET_DYLIB_SPECIAL_IMM then Some (\<lambda>h. n_opcode_set_dylib_special_imm)
           else if opcode = BIND_OPCODE_SET_SYMBOL_TRAILING_FLAGS_IMM then Some (\<lambda>h. n_opcode_set_trailing_flags_imm)
           else if opcode = BIND_OPCODE_SET_TYPE_IMM then Some (\<lambda>h. n_opcode_set_type_imm)
           else if opcode = BIND_OPCODE_SET_SEGMENT_AND_OFFSET_ULEB then Some (\<lambda>h. l_opcode_set_segment_and_offset_uleb)
           else if opcode = BIND_OPCODE_DO_BIND then Some l_opcode_do_bind
           else None))"

text \<open>No handler of either table moves the cursor backwards: the dispatcher terminates.\<close>

lemma add_address_ov_index [simp]: "index (add_address_ov s a d) = index s"
  by (simp add: add_address_ov_def Let_def)

lemma name_loop_index: "name_loop blob s = Some s' \<Longrightarrow> index s \<le> index s'"
proof (induction blob s rule: name_loop.induct)
  case (1 blob s)
  then show ?case
    by (subst (asm) (2) name_loop.simps) (fastforce split: if_splits)
qed

lemma bind_times_index: "bind_times h n skip s b = Inr (s', b') \<Longrightarrow> index s' = index s"
  by (induction n arbitrary: s b) (auto split: if_splits sum.splits)

definition advances :: "(bind_handler \<Rightarrow> opcode_handler) \<Rightarrow> bool" where
  "advances f = (\<forall>h s b i blob s' b'. f h s b i blob = Inr (s', b') \<longrightarrow> index s \<le> index s')"

lemma advances_plain:
  "advances (\<lambda>h. n_opcode_done)"
  "advances (\<lambda>h. n_opcode_set_dylib_ordinal_imm)"
  "advances (\<lambda>h. n_opcode_set_dylib_ordinal_uleb)"
  "advances (\<lambda>h. n_opcode_set_dylib_special_imm)"
  "advances (\<lambda>h. n_opcode_set_type_imm)"
  "advances (\<lambda>h. n_opcode_set_addend_sleb)"
  "advances (\<lambda>h. n_opcode_set_segment_and_offset_uleb)"
  "advances (\<lambda>h. l_opcode_set_segment_and_offset_uleb)"
  "advances (\<lambda>h. n_opcode_add_addr_uleb)"
  by (auto simp: advances_def n_opcode_done_def n_opcode_set_dylib_ordinal_imm_def
      n_opcode_set_dylib_ordinal_uleb_def n_opcode_set_dylib_special_imm_def
      n_opcode_set_type_imm_def n_opcode_set_addend_sleb_def
      n_opcode_set_segment_and_offset_uleb_def l_opcode_set_segment_and_offset_uleb_def
      n_opcode_add_addr_uleb_def Let_def split: if_splits)

lemma advances_name: "advances (\<lambda>h. n_opcode_set_trailing_flags_imm)"
  by (auto simp: advances_def n_opcode_set_trailing_flags_imm_def Let_def
      split: option.splits dest!: name_loop_index)

lemma advances_bind:
  "advances n_opcode_do_bind"
  "advances l_opcode_do_bind"
  "advances n_opcode_do_bind_add_addr_uleb"
  "advances n_opcode_do_bind_add_addr_imm_scaled"
  by (auto simp: advances_def n_opcode_do_bind_def l_opcode_do_bind_def
      n_opcode_do_bind_add_addr_uleb_def n_opcode_do_bind_add_addr_imm_scaled_def
      check_address_bounds_def Let_def split: if_splits sum.splits)

lemma advances_times: "advances n_opcode_do_bind_uleb_times_skipping_uleb"
  by (auto simp: advances_def n_opcode_do_bind_uleb_times_skipping_uleb_def Let_def
      dest!: bind_times_index)

lemma opcode_dict_advances: "opcode_dict m opcode = Some f \<Longrightarrow> advances f"
  by (cases m)
    (auto simp: opcode_dict_def advances_plain advances_name advances_bind advances_times
      split: if_splits)

lemma opcode_dict_index:
  assumes "opcode_dict m opcode = Some f" and "f h s b i blob = Inr (s', b')"
  shows "index s \<le> index s'"
  using opcode_dict_advances [OF assms(1)] assms(2) unfolding advances_def by blast

text \<open>The \<^verbatim>\<open>while not s.done and s.index < end\<close> loop of \<^verbatim>\<open>_do_bind_generic\<close>.\<close>

function bind_loop ::
  "bind_handler \<Rightarrow> mode \<Rightarrow> byte list \<Rightarrow> BindingState \<Rightarrow> binary \<Rightarrow> (BindingState \<times> binary) result"
where
  "bind_loop bind_handler m blob s b =
     (if \<not> done_flag s \<and> index s < length blob then
        (let raw_opcode = unat (blob ! index s);
             opcode = raw_opcode AND BIND_OPCODE_MASK;
             immediate = raw_opcode AND BIND_IMMEDIATE_MASK;
             s = s\<lparr>index := index s + 1\<rparr>
         in case opcode_dict m opcode of
              None \<Rightarrow> bind_loop bind_handler m blob s b
            | Some binding_handler \<Rightarrow>
                (case binding_handler bind_handler s b immediate blob of
                   Inl e \<Rightarrow> Inl e
                 | Inr (s, b) \<Rightarrow> bind_loop bind_handler m blob s b))
      else Inr (s, b))"
  by pat_completeness auto
termination
proof (relation "measure (\<lambda>(h, m, blob, s, b). length blob - index s)", goal_cases)
  case 1
  show ?case by simp
next
  case (2 h m blob s b)
  then show ?case by auto
next
  case (3 h m blob s b raw opcode imm s1 f x s2 b2)
  then show ?case
    using opcode_dict_index [of m opcode f h s1 b imm blob]
    by auto
qed


declare bind_loop.simps [simp del]

text \<open>\<^verbatim>\<open>_do_bind_generic\<close>: the segment lookup on entry, then the loop.\<close>

definition do_bind_generic ::
  "bind_handler \<Rightarrow> mode \<Rightarrow> byte list \<Rightarrow> BindingState \<Rightarrow> binary \<Rightarrow> (BindingState \<times> binary) result"
where
  "do_bind_generic bind_handler m blob init_state b =
     (let s = init_state
      in if segment_index s < length (segments b) then
           (let seg = segments b ! segment_index s;
                s = s\<lparr>seg_end_address := vaddr seg + memsize seg\<rparr>
            in bind_loop bind_handler m blob s b)
         else Inl (IndexError, b))"

definition do_normal_bind :: "byte list option \<Rightarrow> binary \<Rightarrow> binary result" where
  "do_normal_bind blob b =
     (case blob of
        None \<Rightarrow> Inr b
      | Some blob \<Rightarrow>
          (let s = BindingState_init (arch_bits b = 64)
           in if 0 < length (segments b) then
                (let seg = segments b ! 0;
                     s = s\<lparr>seg_end_address := vaddr seg + memsize seg\<rparr>
                 in case do_bind_generic default_binding_handler Normal blob s b of
                      Inl e \<Rightarrow> Inl e
                    | Inr (s, b) \<Rightarrow> Inr b)
              else Inl (IndexError, b)))"

lemma bind_loop_index:
  "bind_loop h m blob s b = Inr (s', b') \<Longrightarrow> index s \<le> index s'"
proof (induction h m blob s b rule: bind_loop.induct)
  case (1 h m blob s b)
  show ?case
  proof (cases "\<not> done_flag s \<and> index s < length blob")
    case False
    with "1.prems" show ?thesis by (simp add: bind_loop.simps)
  next
    case True
    define raw where "raw = unat (blob ! index s)"
    define s1 where "s1 = s\<lparr>index := index s + 1\<rparr>"
    show ?thesis
    proof (cases "opcode_dict m (raw AND 0xF0)")
      case None
      with True "1.prems" have "bind_loop h m blob s1 b = Inr (s', b')"
        by (simp add: bind_loop.simps [of h m blob s] raw_def s1_def Let_def)
      with "1.IH"(1) [OF True refl refl refl refl] None show ?thesis
        by (simp add: raw_def s1_def)
    next
      case (Some f)
      with True "1.prems" obtain s2 b2 where
        f: "f h s1 b (raw AND 0x0F) blob = Inr (s2, b2)" and
        l: "bind_loop h m blob s2 b2 = Inr (s', b')"
        by (auto simp: bind_loop.simps [of h m blob s] raw_def s1_def Let_def
            split: sum.splits)
      have "index s2 \<le> index s'"
        by (rule "1.IH"(2) [OF True refl refl refl refl Some [unfolded raw_def]
              f [unfolded raw_def s1_def] refl l])
      moreover from opcode_dict_index [OF Some f] have "index s1 \<le> index s2" .
      ultimately show ?thesis by (simp add: s1_def)
    qed
  qed
qed

lemma bind_loop_progress:
  assumes "bind_loop h m blob s b = Inr (s', b')" "\<not> done_flag s" "index s < length blob"
  shows "index s < index s'"
proof -
  define raw where "raw = unat (blob ! index s)"
  define s1 where "s1 = s\<lparr>index := index s + 1\<rparr>"
  show ?thesis
  proof (cases "opcode_dict m (raw AND 0xF0)")
    case None
    with assms have "bind_loop h m blob s1 b = Inr (s', b')"
      by (simp add: bind_loop.simps [of h m blob s] raw_def s1_def Let_def)
    from bind_loop_index [OF this] show ?thesis by (simp add: s1_def)
  next
    case (Some f)
    with assms obtain s2 b2 where
      f: "f h s1 b (raw AND 0x0F) blob = Inr (s2, b2)" and
      l: "bind_loop h m blob s2 b2 = Inr (s', b')"
      by (auto simp: bind_loop.simps [of h m blob s] raw_def s1_def Let_def
          split: sum.splits)
    from bind_loop_index [OF l] opcode_dict_index [OF Some f] show ?thesis
      by (simp add: s1_def)
  qed
qed

text \<open>The \<^verbatim>\<open>while s.index < end\<close> loop of \<^verbatim>\<open>do_lazy_bind\<close>.\<close>

function lazy_loop :: "byte list \<Rightarrow> BindingState \<Rightarrow> binary \<Rightarrow> binary result" where
  "lazy_loop blob s b =
     (if index s < length blob then
        (let s = s\<lparr>binding_type := 1\<rparr>;
             s = s\<lparr>address := 0\<rparr>;
             s = s\<lparr>sym_name := []\<rparr>;
             s = s\<lparr>sym_flags := 0\<rparr>;
             s = s\<lparr>lib_ord := 0\<rparr>;
             s = s\<lparr>done_flag := False\<rparr>;
             s = s\<lparr>addend := 0\<rparr>;
             s = s\<lparr>segment_index := 0\<rparr>;
             s = s\<lparr>seg_end_address := 0\<rparr>
         in case do_bind_generic default_binding_handler Lazy blob s b of
              Inl e \<Rightarrow> Inl e
            | Inr (s, b) \<Rightarrow> lazy_loop blob s b)
      else Inr b)"
  by pat_completeness auto
termination
proof (relation "measure (\<lambda>(blob, s, b). length blob - index s)", goal_cases)
  case 1
  show ?case by simp
next
  case (2 blob s b s1 s2 s3 s4 s5 s6 s7 s8 s9 x s' b')
  then have "bind_loop default_binding_handler Lazy blob
               (s9\<lparr>seg_end_address := vaddr (segments b ! segment_index s9)
                                       + memsize (segments b ! segment_index s9)\<rparr>) b
             = Inr (s', b')"
    by (simp add: do_bind_generic_def Let_def split: if_splits)
  from bind_loop_progress [OF this] 2 have "index s < index s'" by simp
  moreover from 2 have "index s < length blob" by simp
  ultimately show ?case by simp
qed

declare lazy_loop.simps [simp del]

definition do_lazy_bind :: "byte list option \<Rightarrow> binary \<Rightarrow> binary result" where
  "do_lazy_bind blob b =
     (case blob of
        None \<Rightarrow> Inr b
      | Some blob \<Rightarrow>
          (let s = BindingState_init (arch_bits b = 64);
               s = s\<lparr>index := 0\<rparr>
           in lazy_loop blob s b))"

subsection \<open>Example images\<close>

text \<open>
  Images for the concrete runs below: 64-bit, little-endian, with the identity as address
  translation and an empty memory log.
\<close>

definition image_one_segment :: binary where
  "image_one_segment =
     \<lparr>segments = [\<lparr>vaddr = 0x1000, memsize = 0x1000\<rparr>], symbol_heap = [], symbols = [],
      ordered_symbols = [], memory = [], arch_bits = 64, struct_byteorder = LittleEndian,
      lva_to_rva = (\<lambda>a. a)\<rparr>"

definition image_no_segments :: binary where
  "image_no_segments =
     \<lparr>segments = [], symbol_heap = [], symbols = [],
      ordered_symbols = [], memory = [], arch_bits = 64, struct_byteorder = LittleEndian,
      lva_to_rva = (\<lambda>a. a)\<rparr>"

definition image_empty_segment :: binary where
  "image_empty_segment =
     \<lparr>segments = [\<lparr>vaddr = 0, memsize = 0\<rparr>], symbol_heap = [], symbols = [],
      ordered_symbols = [], memory = [], arch_bits = 64, struct_byteorder = LittleEndian,
      lva_to_rva = (\<lambda>a. a)\<rparr>"

text \<open>The state of a 64-bit normal pass on \<open>image_one_segment\<close> after it has read its first opcode byte.\<close>

definition state_at_first_opcode :: BindingState where
  "state_at_first_opcode = (BindingState_init True)\<lparr>index := 1, seg_end_address := 0x2000\<rparr>"





subsection \<open>Reading packed bytes back\<close>



text \<open>
  The state of a 64-bit lazy record after its first opcode byte, and a lazy blob
  \<^verbatim>\<open>SET_SEGMENT_AND_OFFSET_ULEB(0, 0xFFFFFFFFFFFFF000)\<close>.
\<close>

definition lazy_state_at_first_opcode :: BindingState where
  "lazy_state_at_first_opcode = (BindingState_init True)\<lparr>index := 1, binding_type := 1\<rparr>"

definition lazy_blob_offset_wraps :: "byte list" where
  "lazy_blob_offset_wraps = [0x70, 0x80, 0xe0, 0xff, 0xff, 0xff, 0xff, 0xff, 0xff, 0xff, 0x01]"

text \<open>
  A lazy blob of two records,
  \<^verbatim>\<open>SET_DYLIB_ORDINAL_IMM(1); SET_SYMBOL_TRAILING_FLAGS_IMM(0, "_a"); SET_SEGMENT_AND_OFFSET_ULEB(0, 0x10); DO_BIND; DONE\<close>
  and \<^verbatim>\<open>DO_BIND; DONE\<close>, with the state and the image that the first record leaves on
  \<open>image_one_segment\<close> and the image that the second one leaves.
\<close>

definition lazy_blob_two_records :: "byte list" where
  "lazy_blob_two_records =
     [0x11, 0x40, 0x5f, 0x61, 0x00, 0x70, 0x10, 0x90, 0x00, 0x90, 0x00]"

definition state_after_first_record :: BindingState where
  "state_after_first_record = (BindingState_init True)
     \<lparr>index := 9, done_flag := True, lib_ord := 1, sym_name := ''_a'', binding_type := 1,
      address := 0x1010, seg_end_address := 0x2000\<rparr>"

definition image_after_first_record :: binary where
  "image_after_first_record = image_one_segment
     \<lparr>symbol_heap := [(BindingSymbol ''_a'' 1)\<lparr>bind_xrefs := [0x1010]\<rparr>],
      symbols := [0], ordered_symbols := [0],
      memory := [(0x1010, [0, 0, 0, 0, 0, 0, 0, 0])]\<rparr>"

definition image_after_second_record :: binary where
  "image_after_second_record = image_one_segment
     \<lparr>symbol_heap := [(BindingSymbol ''_a'' 1)\<lparr>bind_xrefs := [0x1010]\<rparr>,
                       (BindingSymbol [] 0)\<lparr>bind_xrefs := [0]\<rparr>],
      symbols := [0, 1], ordered_symbols := [0, 1],
      memory := [(0x1010, [0, 0, 0, 0, 0, 0, 0, 0]), (0, [0, 0, 0, 0, 0, 0, 0, 0])]\<rparr>"

section \<open>Address arithmetic\<close>

text \<open>
  C1. The claim: for every address \<open>a\<close> with \<open>0 \<le> a < 2^64\<close> and every delta \<open>d \<ge> 0\<close>,
  the address addition yields \<open>(a + d) mod 2^64\<close>, also when \<open>a + d = 2^64\<close>.
  The code compares with \<^verbatim>\<open>>\<close> and subtracts the modulus once: at address \<open>0x10\<close> and
  delta \<open>0xFFFFFFFFFFFFFFF0\<close> the sum is exactly \<open>2^64\<close> and is stored unreduced, where
  the claimed value is \<open>0\<close>.
\<close>

theorem add_address_ov_boundary:
  "address (add_address_ov (BindingState_init True) 0x10 0xFFFFFFFFFFFFFFF0) = 2 ^ 64
   \<and> (0x10 + 0xFFFFFFFFFFFFFFF0) mod 2 ^ 64 = (0 :: int)"
  by (simp add: add_address_ov_def BindingState_init_def)

section \<open>The LEB128 decoders invert the encoders\<close>

text \<open>
  The bit operations of the decoders, as arithmetic on a byte and on an accumulator that
  is below \<open>2 ^ shift\<close>.
\<close>

lemma or_push_bit_eq_add:
  fixes r x :: int
  assumes "0 \<le> r" "r < 2 ^ sh"
  shows "r OR push_bit sh x = r + x * 2 ^ sh"
proof -
  from assms have r: "take_bit sh r = r"
    by (rule take_bit_int_eq_self)
  have "take_bit sh r + push_bit sh x = take_bit sh r OR push_bit sh x"
    by (rule disjunctive_add) (auto simp: bit_take_bit_iff bit_push_bit_iff)
  then show ?thesis
    by (simp add: r push_bit_eq_mult)
qed

lemma and_0x7f: "(k::int) AND 0x7f = k mod 128"
proof -
  from take_bit_eq_mask [of 7 k] have "k mod 2 ^ 7 = k AND mask 7"
    by (simp only: take_bit_eq_mod)
  then show ?thesis by (simp add: mask_eq_exp_minus_1)
qed

lemma and_0x80: "0 \<le> k \<Longrightarrow> k < 256 \<Longrightarrow> (k AND 0x80 = 0) = (k < 128)" for k :: int
proof -
  assume k: "0 \<le> k" "k < 256"
  have "(k AND 2 ^ 7 = 0) = (\<not> bit k 7)" by (rule and_exp_eq_0_iff_not_bit)
  moreover have "k div 128 = 0 \<or> k div 128 = 1" using k by auto
  moreover have "k div 128 = 0 \<longleftrightarrow> k < 128" using k by auto
  ultimately show ?thesis by (auto simp: bit_iff_odd)
qed

lemma and_0x40: "0 \<le> k \<Longrightarrow> k < 128 \<Longrightarrow> (k AND 0x40 = 0) = (k < 64)" for k :: int
proof -
  assume k: "0 \<le> k" "k < 128"
  have "(k AND 2 ^ 6 = 0) = (\<not> bit k 6)" by (rule and_exp_eq_0_iff_not_bit)
  moreover have "k div 64 = 0 \<or> k div 64 = 1" using k by auto
  moreover have "k div 64 = 0 \<longleftrightarrow> k < 64" using k by auto
  ultimately show ?thesis by (auto simp: bit_iff_odd)
qed

lemma uint_byte_bounds: "0 \<le> uint (w :: byte)" "uint (w :: byte) < 256"
  using uint_lt2p [of w] by simp_all

lemma uint_byte_of_nat: "v < 256 \<Longrightarrow> uint (of_nat v :: byte) = int v"
  by (simp add: uint_nat unat_of_nat)

lemma uint_byte_of_int: "0 \<le> k \<Longrightarrow> k < 256 \<Longrightarrow> uint (word_of_int k :: byte) = k"
  by (simp add: uint_word_of_int take_bit_eq_mod)

lemma acc_bound:
  fixes r :: int
  assumes "0 \<le> r" "r < 2 ^ sh" "0 \<le> x" "x < 128"
  shows "0 \<le> r + x * 2 ^ sh" "r + x * 2 ^ sh < 2 ^ (sh + 7)"
proof -
  show "0 \<le> r + x * 2 ^ sh" using assms by simp
  have "x * 2 ^ sh \<le> 127 * 2 ^ sh" using assms by (intro mult_right_mono) simp_all
  moreover have "(2::int) ^ (sh + 7) = 128 * 2 ^ sh" by (simp add: power_add)
  ultimately show "r + x * 2 ^ sh < 2 ^ (sh + 7)" using assms(2) by linarith
qed

lemma shift_split: "(q * 128 + m) * 2 ^ sh = m * 2 ^ sh + q * 2 ^ (sh + 7)" for q m :: int
proof -
  have "(2::int) ^ (sh + 7) = 2 ^ sh * 128" by (simp add: power_add)
  then show ?thesis by (simp add: algebra_simps)
qed

lemma uleb_loop_continue:
  assumes "uint byte = m + 128" "0 \<le> m" "0 \<le> r" "r < 2 ^ sh"
  shows "uleb_loop (pre @ byte # rest) r sh (length pre)
         = uleb_loop ((pre @ [byte]) @ rest) (r + m * 2 ^ sh) (sh + 7) (length (pre @ [byte]))"
proof -
  let ?blob = "pre @ byte # rest"
  have i: "length pre < length ?blob" by simp
  have at: "uint (?blob ! length pre) = m + 128" by (simp add: assms(1))
  have b: "0 \<le> m + 128" "m + 128 < 256"
    using assms(1) uint_byte_bounds [of byte] by simp_all
  have md: "(m + 128) mod 128 = m" using assms(2) b by simp
  have a: "((m + 128) AND 0x80 = 0) = False" using and_0x80 [OF b] assms(2) by simp
  have "uleb_loop ?blob r sh (length pre)
        = uleb_loop ?blob (r + m * 2 ^ sh) (sh + 7) (length pre + 1)"
    by (subst uleb_loop.simps)
      (simp only: i at Let_def and_0x7f a md or_push_bit_eq_add [OF assms(3,4)] if_True if_False)
  then show ?thesis by simp
qed

lemma uleb_loop_stop:
  assumes "uint byte = m" "m < 128" "0 \<le> r" "r < 2 ^ sh"
  shows "uleb_loop (pre @ byte # rest) r sh (length pre) = (r + m * 2 ^ sh, length pre + 1)"
proof -
  let ?blob = "pre @ byte # rest"
  have i: "length pre < length ?blob" by simp
  have at: "uint (?blob ! length pre) = m" by (simp add: assms(1))
  have b: "0 \<le> m" "m < 256"
    using assms(1,2) uint_byte_bounds [of byte] by simp_all
  have md: "m mod 128 = m" using assms(2) b by simp
  have a: "(m AND 0x80 = 0) = True" using and_0x80 [OF b] assms(2) by simp
  show ?thesis
    by (subst uleb_loop.simps)
      (simp only: i at Let_def and_0x7f a md or_push_bit_eq_add [OF assms(3,4)] if_True if_False)
qed

lemma split_128_nat: "int v = int (v div 128) * 128 + int (v mod 128)"
proof -
  have "int v = int (v div 128 * 128 + v mod 128)" by (simp only: div_mult_mod_eq)
  also have "\<dots> = int (v div 128) * 128 + int (v mod 128)"
    by (simp only: of_nat_add of_nat_mult of_nat_numeral)
  finally show ?thesis .
qed

lemma uleb_loop_encode:
  "0 \<le> r \<Longrightarrow> r < 2 ^ sh \<Longrightarrow>
   uleb_loop (pre @ encode_uleb v @ suf) r sh (length pre)
     = (r + int v * 2 ^ sh, length pre + length (encode_uleb v))"
proof (induction v arbitrary: pre r sh rule: encode_uleb.induct)
  case (1 v)
  define m where "m = int (v mod 128)"
  define q where "q = int (v div 128)"
  have m: "0 \<le> m" "m < 128" by (simp_all add: m_def)
  have v: "int v = q * 128 + m" unfolding m_def q_def by (rule split_128_nat)
  show ?case
  proof (cases "v div 128 = 0")
    case True
    then have enc: "encode_uleb v = [of_nat (v mod 128)]"
      by (subst encode_uleb.simps) (simp add: Let_def)
    have ub: "uint (of_nat (v mod 128) :: byte) = m"
      unfolding m_def by (rule uint_byte_of_nat) simp
    from True have q0: "q = 0" by (simp add: q_def)
    have "uleb_loop (pre @ encode_uleb v @ suf) r sh (length pre)
          = uleb_loop (pre @ of_nat (v mod 128) # suf) r sh (length pre)"
      by (simp only: enc append_Cons append_Nil)
    also have "\<dots> = (r + m * 2 ^ sh, length pre + 1)"
      by (rule uleb_loop_stop [OF ub m(2) "1.prems"])
    also have "\<dots> = (r + int v * 2 ^ sh, length pre + length (encode_uleb v))"
      by (simp add: v q0 enc)
    finally show ?thesis .
  next
    case False
    define byte :: byte where "byte = of_nat (v mod 128 + 128)"
    from False have enc: "encode_uleb v = byte # encode_uleb (v div 128)"
      by (subst encode_uleb.simps) (simp add: Let_def byte_def)
    have "uint byte = int (v mod 128 + 128)"
      unfolding byte_def by (rule uint_byte_of_nat) simp
    then have ub: "uint byte = m + 128" by (simp add: m_def)
    have bnd: "0 \<le> r + m * 2 ^ sh" "r + m * 2 ^ sh < 2 ^ (sh + 7)"
      by (rule acc_bound [OF "1.prems" m])+
    have ar: "r + m * 2 ^ sh + q * 2 ^ (sh + 7) = r + int v * 2 ^ sh"
      by (simp only: v shift_split add.assoc)
    have "uleb_loop (pre @ encode_uleb v @ suf) r sh (length pre)
          = uleb_loop (pre @ byte # (encode_uleb (v div 128) @ suf)) r sh (length pre)"
      by (simp only: enc append_Cons)
    also have "\<dots> = uleb_loop ((pre @ [byte]) @ encode_uleb (v div 128) @ suf)
                        (r + m * 2 ^ sh) (sh + 7) (length (pre @ [byte]))"
      by (rule uleb_loop_continue [OF ub m(1) "1.prems"])
    also have "\<dots> = (r + m * 2 ^ sh + int (v div 128) * 2 ^ (sh + 7),
                      length (pre @ [byte]) + length (encode_uleb (v div 128)))"
      by (rule "1.IH" [OF refl refl False bnd])
    also have "\<dots> = (r + int v * 2 ^ sh, length pre + length (encode_uleb v))"
      using ar by (simp add: enc q_def)
    finally show ?thesis .
  qed
qed

lemma sleb_loop_continue:
  assumes "uint byte = m + 128" "0 \<le> m" "0 \<le> r" "r < 2 ^ sh"
  shows "sleb_loop (pre @ byte # rest) r sh (length pre)
         = sleb_loop ((pre @ [byte]) @ rest) (r + m * 2 ^ sh) (sh + 7) (length (pre @ [byte]))"
proof -
  let ?blob = "pre @ byte # rest"
  have i: "length pre < length ?blob" by simp
  have at: "uint (?blob ! length pre) = m + 128" by (simp add: assms(1))
  have b: "0 \<le> m + 128" "m + 128 < 256"
    using assms(1) uint_byte_bounds [of byte] by simp_all
  have md: "(m + 128) mod 128 = m" using assms(2) b by simp
  have a: "((m + 128) AND 0x80 = 0) = False" using and_0x80 [OF b] assms(2) by simp
  have "sleb_loop ?blob r sh (length pre)
        = sleb_loop ?blob (r + m * 2 ^ sh) (sh + 7) (length pre + 1)"
    by (subst sleb_loop.simps)
      (simp only: i at Let_def and_0x7f a md or_push_bit_eq_add [OF assms(3,4)] if_True if_False)
  then show ?thesis by simp
qed

lemma sleb_loop_stop:
  assumes "uint byte = m" "m < 128" "0 \<le> r" "r < 2 ^ sh"
  shows "sleb_loop (pre @ byte # rest) r sh (length pre)
         = (if m < 64 then r + m * 2 ^ sh else r + m * 2 ^ sh - 2 ^ (sh + 7), length pre + 1)"
proof -
  let ?blob = "pre @ byte # rest"
  have i: "length pre < length ?blob" by simp
  have at: "uint (?blob ! length pre) = m" by (simp add: assms(1))
  have b: "0 \<le> m" "m < 256"
    using assms(1,2) uint_byte_bounds [of byte] by simp_all
  have md: "m mod 128 = m" using assms(2) b by simp
  have a: "(m AND 0x80 = 0) = True" using and_0x80 [OF b] assms(2) by simp
  have p: "push_bit (sh + 7) (1::int) = 2 ^ (sh + 7)" by (simp add: push_bit_eq_mult)
  show ?thesis
  proof (cases "m < 64")
    case True
    then have c: "(m AND 0x40 \<noteq> 0) = False" using and_0x40 [OF b(1) assms(2)] by simp
    show ?thesis
      by (subst sleb_loop.simps)
        (simp only: i at Let_def and_0x7f a c md p True or_push_bit_eq_add [OF assms(3,4)]
          if_True if_False)
  next
    case False
    then have c: "(m AND 0x40 \<noteq> 0) = True" using and_0x40 [OF b(1) assms(2)] by simp
    show ?thesis
      by (subst sleb_loop.simps)
        (simp only: i at Let_def and_0x7f a c md p False or_push_bit_eq_add [OF assms(3,4)]
          if_True if_False)
  qed
qed

lemma sleb_loop_encode:
  "0 \<le> r \<Longrightarrow> r < 2 ^ sh \<Longrightarrow>
   sleb_loop (pre @ encode_sleb v @ suf) r sh (length pre)
     = (r + v * 2 ^ sh, length pre + length (encode_sleb v))"
proof (induction v arbitrary: pre r sh rule: encode_sleb.induct)
  case (1 v)
  define m where "m = v mod 128"
  define q where "q = v div 128"
  have m: "0 \<le> m" "m < 128" by (simp_all add: m_def)
  have v: "v = q * 128 + m" unfolding m_def q_def by (simp only: div_mult_mod_eq)
  show ?case
  proof (cases "(q = 0 \<and> m < 64) \<or> (q = - 1 \<and> m \<ge> 64)")
    case True
    then have enc: "encode_sleb v = [word_of_int m]"
      by (subst encode_sleb.simps) (simp add: Let_def m_def q_def)
    have ub: "uint (word_of_int m :: byte) = m"
      using m by (intro uint_byte_of_int) simp_all
    have val: "(if m < 64 then r + m * 2 ^ sh else r + m * 2 ^ sh - 2 ^ (sh + 7)) = r + v * 2 ^ sh"
    proof (cases "m < 64")
      case True
      with \<open>(q = 0 \<and> m < 64) \<or> (q = - 1 \<and> m \<ge> 64)\<close> have "q = 0" by simp
      with v True show ?thesis by simp
    next
      case False
      with \<open>(q = 0 \<and> m < 64) \<or> (q = - 1 \<and> m \<ge> 64)\<close> have "q = - 1" by simp
      with v have "v + 1 * 128 = m" by simp
      then have "m * 2 ^ sh = v * 2 ^ sh + 1 * 2 ^ (sh + 7)"
        using shift_split [of 1 v sh] by (simp add: add.commute)
      with False show ?thesis by simp
    qed
    have "sleb_loop (pre @ encode_sleb v @ suf) r sh (length pre)
          = sleb_loop (pre @ word_of_int m # suf) r sh (length pre)"
      by (simp only: enc append_Cons append_Nil)
    also have "\<dots> = (if m < 64 then r + m * 2 ^ sh else r + m * 2 ^ sh - 2 ^ (sh + 7),
                      length pre + 1)"
      by (rule sleb_loop_stop [OF ub m(2) "1.prems"])
    also have "\<dots> = (r + v * 2 ^ sh, length pre + length (encode_sleb v))"
      by (simp only: val enc list.size) simp
    finally show ?thesis .
  next
    case False
    define byte :: byte where "byte = word_of_int (m + 128)"
    from False have enc: "encode_sleb v = byte # encode_sleb q"
      by (subst encode_sleb.simps) (simp add: Let_def byte_def m_def q_def)
    have ub: "uint byte = m + 128"
      unfolding byte_def using m by (intro uint_byte_of_int) simp_all
    have bnd: "0 \<le> r + m * 2 ^ sh" "r + m * 2 ^ sh < 2 ^ (sh + 7)"
      by (rule acc_bound [OF "1.prems" m])+
    have ar: "r + m * 2 ^ sh + q * 2 ^ (sh + 7) = r + v * 2 ^ sh"
      by (simp only: v shift_split add.assoc)
    from False have stop: "\<not> ((v div 128 = 0 \<and> v mod 128 < 64) \<or> (v div 128 = - 1 \<and> 64 \<le> v mod 128))"
      by (simp add: m_def q_def)
    have "sleb_loop (pre @ encode_sleb v @ suf) r sh (length pre)
          = sleb_loop (pre @ byte # (encode_sleb q @ suf)) r sh (length pre)"
      by (simp only: enc append_Cons)
    also have "\<dots> = sleb_loop ((pre @ [byte]) @ encode_sleb q @ suf)
                        (r + m * 2 ^ sh) (sh + 7) (length (pre @ [byte]))"
      by (rule sleb_loop_continue [OF ub m(1) "1.prems"])
    also have "\<dots> = (r + m * 2 ^ sh + q * 2 ^ (sh + 7),
                      length (pre @ [byte]) + length (encode_sleb q))"
      unfolding q_def by (rule "1.IH" [OF refl refl stop bnd])
    also have "\<dots> = (r + v * 2 ^ sh, length pre + length (encode_sleb v))"
      using ar by (simp add: enc)
    finally show ?thesis .
  qed
qed

lemma read_sleb_encode:
  "read_sleb (pre @ encode_sleb v @ suf) (length pre) = (v, length (encode_sleb v))"
  using sleb_loop_encode [of 0 0 pre v suf] by (simp add: read_sleb_def)

lemma read_uleb_encode:
  "read_uleb (pre @ encode_uleb v @ suf) (length pre) = (int v, length (encode_uleb v))"
  using uleb_loop_encode [of 0 0 pre v suf] by (simp add: read_uleb_def)

text \<open>
  C6. For every natural number \<open>n\<close>, \<^verbatim>\<open>read_uleb\<close> at the offset where the standard
  ULEB128 encoding of \<open>n\<close> starts (whatever precedes and follows it in the blob) returns
  \<open>n\<close> and the number of encoded bytes; and for every integer \<open>v\<close>, negative ones included,
  \<^verbatim>\<open>read_sleb\<close> returns \<open>v\<close> and the number of bytes of its standard SLEB128 encoding.
\<close>

theorem leb128_decoders_invert_encoders:
  "read_uleb (pre @ encode_uleb n @ suf) (length pre) = (int n, length (encode_uleb n))
   \<and> read_sleb (pre' @ encode_sleb v @ suf') (length pre') = (v, length (encode_sleb v))"
  by (simp only: read_uleb_encode read_sleb_encode)

section \<open>Outcomes of a pass\<close>

text \<open>
  C3. The claim: whatever the blob, a pass ends on \<^verbatim>\<open>DONE\<close>, or by exhausting the bytes,
  or by raising the invalid-binary error, and raises nothing else, also for a
  \<^verbatim>\<open>SET_SYMBOL_TRAILING_FLAGS_IMM\<close> whose string has no NUL before the end of the blob.
  Every function of the embedding is total, so a pass does end. But on the two-byte blob
  \<^verbatim>\<open>40 41\<close> (the opcode, then the letter A, then the end of the blob) the loop
  \<^verbatim>\<open>while blob[s.index] != 0\<close> reads past the end: both entry points raise
  \<^verbatim>\<open>IndexError\<close>, which is none of the three outcomes.
\<close>

theorem unterminated_symbol_name_raises_IndexError:
  "do_normal_bind (Some [0x40, 0x41]) image_one_segment = Inl (IndexError, image_one_segment)
   \<and> do_lazy_bind (Some [0x40, 0x41]) image_one_segment = Inl (IndexError, image_one_segment)"
  by (simp add: do_normal_bind_def do_lazy_bind_def lazy_loop.simps do_bind_generic_def
      bind_loop.simps name_loop.simps opcode_dict_def n_opcode_set_trailing_flags_imm_def
      BindingState_init_def image_one_segment_def Let_def)

section \<open>The entry state of a normal pass\<close>

lemma do_bind_generic_seg_end:
  "do_bind_generic h m blob (s\<lparr>seg_end_address := x\<rparr>) b = do_bind_generic h m blob s b"
  by (simp add: do_bind_generic_def Let_def)

text \<open>
  C10. \<^verbatim>\<open>do_normal_bind\<close> on a blob that is not \<^verbatim>\<open>None\<close> reads \<^verbatim>\<open>segments[0]\<close> first:
  with no segment it raises \<^verbatim>\<open>IndexError\<close> whatever the blob, the empty one included;
  with one, the dispatcher loop starts in the initial state with \<open>seg_end_address\<close> set
  to the end of segment 0, so that a \<^verbatim>\<open>DO_BIND\<close> as first opcode checks address 0 against
  that end and raises the invalid-binary error when the end is not above 0. And
  \<^verbatim>\<open>_do_bind_generic\<close> derives \<open>seg_end_address\<close> from \<^verbatim>\<open>segments[segment_index]\<close> on
  entry: the value it is called with does not matter.
\<close>

theorem do_normal_bind_seeds_from_segment_0:
  "(segments b = [] \<longrightarrow> do_normal_bind (Some blob) b = Inl (IndexError, b))
   \<and> (segments b \<noteq> [] \<longrightarrow>
        do_normal_bind (Some blob) b =
          (case bind_loop default_binding_handler Normal blob
                  ((BindingState_init (arch_bits b = 64))
                     \<lparr>seg_end_address := vaddr (segments b ! 0) + memsize (segments b ! 0)\<rparr>) b of
             Inl e \<Rightarrow> Inl e
           | Inr (s, b') \<Rightarrow> Inr b'))
   \<and> (segments b \<noteq> [] \<and> vaddr (segments b ! 0) + memsize (segments b ! 0) \<le> 0 \<longrightarrow>
        do_normal_bind (Some (0x90 # rest)) b = Inl (CLEInvalidBinaryError, b))
   \<and> do_bind_generic h m blob (s\<lparr>seg_end_address := x\<rparr>) b' = do_bind_generic h m blob s b'"
proof (intro conjI impI)
  assume "segments b = []"
  then show "do_normal_bind (Some blob) b = Inl (IndexError, b)"
    by (simp add: do_normal_bind_def Let_def)
next
  assume "segments b \<noteq> []"
  then show "do_normal_bind (Some blob) b =
          (case bind_loop default_binding_handler Normal blob
                  ((BindingState_init (arch_bits b = 64))
                     \<lparr>seg_end_address := vaddr (segments b ! 0) + memsize (segments b ! 0)\<rparr>) b of
             Inl e \<Rightarrow> Inl e
           | Inr (s, b') \<Rightarrow> Inr b')"
    by (simp add: do_normal_bind_def do_bind_generic_def Let_def BindingState_init_def)
next
  assume a: "segments b \<noteq> [] \<and> vaddr (segments b ! 0) + memsize (segments b ! 0) \<le> 0"
  then show "do_normal_bind (Some (0x90 # rest)) b = Inl (CLEInvalidBinaryError, b)"
    by (simp add: do_normal_bind_def do_bind_generic_def Let_def BindingState_init_def
        bind_loop.simps opcode_dict_def n_opcode_do_bind_def check_address_bounds_def)
next
  show "do_bind_generic h m blob (s\<lparr>seg_end_address := x\<rparr>) b' = do_bind_generic h m blob s b'"
    by (rule do_bind_generic_seg_end)
qed

theorem do_normal_bind_seeds_from_segment_0_witness:
  "segments image_no_segments = []
   \<and> do_normal_bind (Some []) image_no_segments = Inl (IndexError, image_no_segments)
   \<and> segments image_one_segment \<noteq> []
   \<and> do_normal_bind (Some []) image_one_segment = Inr image_one_segment
   \<and> segments image_empty_segment \<noteq> []
   \<and> vaddr (segments image_empty_segment ! 0) + memsize (segments image_empty_segment ! 0) \<le> 0
   \<and> do_normal_bind (Some [0x90]) image_empty_segment
       = Inl (CLEInvalidBinaryError, image_empty_segment)"
proof -
  have 1: "segments image_no_segments = []" by (simp add: image_no_segments_def)
  have 2: "segments image_one_segment \<noteq> []" by (simp add: image_one_segment_def)
  have 3: "segments image_empty_segment \<noteq> [] \<and>
     vaddr (segments image_empty_segment ! 0) + memsize (segments image_empty_segment ! 0) \<le> 0"
    by (simp add: image_empty_segment_def)
  note t1 = do_normal_bind_seeds_from_segment_0 [of image_no_segments "[]", THEN conjunct1, rule_format, OF 1]
  note t2 = do_normal_bind_seeds_from_segment_0 [of image_one_segment "[]", THEN conjunct2, THEN conjunct1, rule_format, OF 2]
  note t3 = do_normal_bind_seeds_from_segment_0 [of image_empty_segment _ "[]", THEN conjunct2, THEN conjunct2, THEN conjunct1, rule_format, OF 3]
  have 4: "do_normal_bind (Some []) image_one_segment = Inr image_one_segment"
    unfolding t2 by (simp add: bind_loop.simps)
  from 1 2 3 t1 t3 4 show ?thesis by simp
qed

section \<open>The normal \<^verbatim>\<open>DO_BIND\<close>\<close>

text \<open>Where the sum is not exactly \<open>2^64\<close> and below \<open>2^65\<close>, the address addition is the one modulo \<open>2^64\<close>.\<close>

lemma add_address_ov_mod:
  assumes "wraparound s = 2 ^ 64" "0 \<le> a + d" "a + d < 2 * 2 ^ 64" "a + d \<noteq> 2 ^ 64"
  shows "add_address_ov s a d = s\<lparr>address := (a + d) mod 2 ^ 64\<rparr>"
proof (cases "a + d < 2 ^ 64")
  case True
  with assms(2) have "(a + d) mod 2 ^ 64 = a + d" by simp
  with True assms(1) show ?thesis by (simp add: add_address_ov_def Let_def)
next
  case False
  with assms(4) have gt: "a + d > 2 ^ 64" by simp
  have "(a + d - 2 ^ 64) mod 2 ^ 64 = a + d - 2 ^ 64"
    using gt assms(3) by (intro mod_pos_pos_trivial) simp_all
  then have "(a + d) mod 2 ^ 64 = a + d - 2 ^ 64"
    by (metis mod_diff_right_eq mod_self diff_zero)
  with gt assms(1) show ?thesis by (simp add: add_address_ov_def Let_def)
qed

text \<open>
  C4, as stated: at a normal \<^verbatim>\<open>DO_BIND\<close> the invalid-binary error is raised exactly when
  \<open>address \<ge> seg_end_address\<close>. It is not: in the state of a pass that starts with
  \<^verbatim>\<open>DO_BIND\<close> the address 0 is below the segment end \<open>0x2000\<close>, the fixup handler is
  invoked, adds a placeholder symbol, and raises the invalid-binary error itself, since the
  binding type is still the initial 0, which is none of 1, 2, 3.
\<close>

theorem n_opcode_do_bind_error_within_bounds:
  "address state_at_first_opcode < seg_end_address state_at_first_opcode
   \<and> n_opcode_do_bind default_binding_handler state_at_first_opcode image_one_segment 0 [0x90]
       = Inl (CLEInvalidBinaryError,
              image_one_segment\<lparr>symbol_heap := [BindingSymbol [] 0], symbols := [0],
                                 ordered_symbols := [0]\<rparr>)"
  by (simp add: state_at_first_opcode_def BindingState_init_def image_one_segment_def
      n_opcode_do_bind_def check_address_bounds_def default_binding_handler_def
      symbol_matches_def Let_def)

text \<open>
  C4, amended: in a state with \<open>0 \<le> address < 2^64\<close>, a pointer size of 4 or 8 and
  \<open>address + pointer_size \<noteq> 2^64\<close>, a normal \<^verbatim>\<open>DO_BIND\<close> raises the invalid-binary error
  and leaves the image as it is, whatever the fixup handler, when
  \<open>address \<ge> seg_end_address\<close>; otherwise it invokes the handler, passes on the error when
  the handler raises one, and when the handler returns sets address to
  \<open>(address + pointer_size) mod 2^64\<close>.
\<close>

theorem n_opcode_do_bind_effect:
  assumes "wraparound s = 2 ^ 64" "0 \<le> address s" "address s < 2 ^ 64"
    and "sizeof_intptr_t s = 4 \<or> sizeof_intptr_t s = 8"
    and "address s + sizeof_intptr_t s \<noteq> 2 ^ 64"
  shows "n_opcode_do_bind h s b i blob =
     (if seg_end_address s \<le> address s then Inl (CLEInvalidBinaryError, b)
      else case h s b of
             Inl e \<Rightarrow> Inl e
           | Inr b' \<Rightarrow> Inr (s\<lparr>address := (address s + sizeof_intptr_t s) mod 2 ^ 64\<rparr>, b'))"
proof -
  have "add_address_ov s (address s) (sizeof_intptr_t s)
        = s\<lparr>address := (address s + sizeof_intptr_t s) mod 2 ^ 64\<rparr>"
    using assms by (intro add_address_ov_mod) auto
  then show ?thesis
    by (simp add: n_opcode_do_bind_def check_address_bounds_def split: sum.splits)
qed

theorem n_opcode_do_bind_effect_witness:
  "n_opcode_do_bind default_binding_handler
       (state_at_first_opcode\<lparr>binding_type := 1, address := 0x1010\<rparr>) image_one_segment 0 [0x90]
     = Inr (state_at_first_opcode\<lparr>binding_type := 1, address := 0x1018\<rparr>,
            image_one_segment\<lparr>symbol_heap := [(BindingSymbol [] 0)\<lparr>bind_xrefs := [0x1010]\<rparr>],
               symbols := [0], ordered_symbols := [0],
               memory := [(0x1010, [0, 0, 0, 0, 0, 0, 0, 0])]\<rparr>)
   \<and> n_opcode_do_bind default_binding_handler
       (state_at_first_opcode\<lparr>binding_type := 1, address := 0x2000\<rparr>) image_one_segment 0 [0x90]
     = Inl (CLEInvalidBinaryError, image_one_segment)"
proof -
  let ?s = "state_at_first_opcode\<lparr>binding_type := 1, address := 0x1010\<rparr>"
  let ?t = "state_at_first_opcode\<lparr>binding_type := 1, address := 0x2000\<rparr>"
  have h: "default_binding_handler ?s image_one_segment
     = Inr (image_one_segment\<lparr>symbol_heap := [(BindingSymbol [] 0)\<lparr>bind_xrefs := [0x1010]\<rparr>],
               symbols := [0], ordered_symbols := [0],
               memory := [(0x1010, [0, 0, 0, 0, 0, 0, 0, 0])]\<rparr>)"
    by (simp add: state_at_first_opcode_def BindingState_init_def image_one_segment_def
        default_binding_handler_def symbol_matches_def store_and_xref_def struct_pack_def
        BindingSymbol_def Let_def upt_rec)
  have s: "wraparound ?s = 2 ^ 64" "0 \<le> address ?s" "address ?s < 2 ^ 64"
    "sizeof_intptr_t ?s = 4 \<or> sizeof_intptr_t ?s = 8" "address ?s + sizeof_intptr_t ?s \<noteq> 2 ^ 64"
    by (simp_all add: state_at_first_opcode_def BindingState_init_def)
  have t: "wraparound ?t = 2 ^ 64" "0 \<le> address ?t" "address ?t < 2 ^ 64"
    "sizeof_intptr_t ?t = 4 \<or> sizeof_intptr_t ?t = 8" "address ?t + sizeof_intptr_t ?t \<noteq> 2 ^ 64"
    by (simp_all add: state_at_first_opcode_def BindingState_init_def)
  note es = n_opcode_do_bind_effect [OF s, of default_binding_handler image_one_segment 0 "[0x90]"]
  note et = n_opcode_do_bind_effect [OF t, of default_binding_handler image_one_segment 0 "[0x90]"]
  have 1: "n_opcode_do_bind default_binding_handler ?s image_one_segment 0 [0x90]
     = Inr (state_at_first_opcode\<lparr>binding_type := 1, address := 0x1018\<rparr>,
            image_one_segment\<lparr>symbol_heap := [(BindingSymbol [] 0)\<lparr>bind_xrefs := [0x1010]\<rparr>],
               symbols := [0], ordered_symbols := [0],
               memory := [(0x1010, [0, 0, 0, 0, 0, 0, 0, 0])]\<rparr>)"
    using es h by (simp add: state_at_first_opcode_def BindingState_init_def)
  have 2: "n_opcode_do_bind default_binding_handler ?t image_one_segment 0 [0x90]
     = Inl (CLEInvalidBinaryError, image_one_segment)"
    using et by (simp add: state_at_first_opcode_def BindingState_init_def)
  from 1 2 show ?thesis by (rule conjI)
qed

section \<open>The fixup handler\<close>


lemmas handler_defs = default_binding_handler_def symbol_matches_def store_and_xref_def
  struct_pack_def BindingSymbol_def Let_def









section \<open>Lazy mode\<close>

lemma read_uleb_offset_wraps: "read_uleb lazy_blob_offset_wraps 1 = (0xFFFFFFFFFFFFF000, 10)"
  by (simp add: read_uleb_def lazy_blob_offset_wraps_def uleb_loop.simps Let_def)

text \<open>
  C8. The claim: a lazy \<^verbatim>\<open>SET_SEGMENT_AND_OFFSET_ULEB\<close> sets address to
  \<open>(segments[immediate].vaddr + offset) mod 2^64\<close> and leaves \<open>seg_end_address\<close>, and a
  lazy \<^verbatim>\<open>DO_BIND\<close> invokes the fixup handler and leaves every register. The registers
  are left as claimed (\<open>lazy_opcodes_frame\<close> below), but the address is computed by
  \<open>add_address_ov\<close>: with the segment at \<open>0x1000\<close> and the offset \<open>0xFFFFFFFFFFFFF000\<close>
  the sum is exactly \<open>2^64\<close> and the address becomes \<open>2^64\<close>, where the claimed value is 0.
\<close>

theorem l_opcode_set_segment_and_offset_uleb_boundary:
  "l_opcode_set_segment_and_offset_uleb lazy_state_at_first_opcode image_one_segment 0
       lazy_blob_offset_wraps
     = Inr (lazy_state_at_first_opcode\<lparr>address := 2 ^ 64, index := 11\<rparr>, image_one_segment)
   \<and> read_uleb lazy_blob_offset_wraps 1 = (0xFFFFFFFFFFFFF000, 10)
   \<and> (vaddr (segments image_one_segment ! 0) + 0xFFFFFFFFFFFFF000) mod 2 ^ 64 = 0"
proof -
  have r: "read_uleb lazy_blob_offset_wraps (index lazy_state_at_first_opcode)
           = (0xFFFFFFFFFFFFF000, 10)"
    using read_uleb_offset_wraps by (simp add: lazy_state_at_first_opcode_def)
  have 1: "l_opcode_set_segment_and_offset_uleb lazy_state_at_first_opcode image_one_segment 0
       lazy_blob_offset_wraps
     = Inr (lazy_state_at_first_opcode\<lparr>address := 2 ^ 64, index := 11\<rparr>, image_one_segment)"
    unfolding l_opcode_set_segment_and_offset_uleb_def r
    by (simp add: Let_def add_address_ov_def lazy_state_at_first_opcode_def
        BindingState_init_def image_one_segment_def)
  have 2: "(vaddr (segments image_one_segment ! 0) + 0xFFFFFFFFFFFFF000) mod 2 ^ 64 = 0"
    by (simp add: image_one_segment_def)
  from 1 read_uleb_offset_wraps 2 show ?thesis by (intro conjI)
qed

lemma lazy_opcodes_frame:
  "l_opcode_do_bind h s b i blob = (case h s b of Inl e \<Rightarrow> Inl e | Inr b' \<Rightarrow> Inr (s, b'))"
  "l_opcode_set_segment_and_offset_uleb s b i blob = Inr (s', b') \<Longrightarrow>
     b' = b \<and> s' = s\<lparr>address := address s', index := index s + snd (read_uleb blob (index s))\<rparr>"
  by (auto simp: l_opcode_do_bind_def l_opcode_set_segment_and_offset_uleb_def Let_def
      add_address_ov_def split: if_splits)

text \<open>
  C9. At the head of the loop of \<^verbatim>\<open>do_lazy_bind\<close>, that is after each \<^verbatim>\<open>DONE\<close> that
  leaves bytes in the blob (and before the first record), the record is interpreted from
  the initial state with binding type 1 and the cursor of the record before: whatever the
  registers \<open>sym_name\<close>, \<open>sym_flags\<close>, \<open>lib_ord\<close>, \<open>addend\<close>, \<open>segment_index\<close>, \<open>address\<close>,
  \<open>seg_end_address\<close>, \<open>done\<close> and \<open>binding_type\<close> held, the remaining pass depends on the
  state through \<open>index\<close> alone. (\<open>wraparound\<close> and the pointer size are the two fields that
  \<^verbatim>\<open>__init__\<close> sets and nothing assigns again.)
\<close>

theorem lazy_record_starts_from_reset_state:
  assumes "wraparound s = 2 ^ 64" and "sizeof_intptr_t s = (if is_64 then 8 else 4)"
  shows "lazy_loop blob s b =
     (if index s < length blob then
        (case do_bind_generic default_binding_handler Lazy blob
                ((BindingState_init is_64)\<lparr>binding_type := 1, index := index s\<rparr>) b of
           Inl e \<Rightarrow> Inl e
         | Inr (s', b') \<Rightarrow> lazy_loop blob s' b')
      else Inr b)"
proof -
  have "s\<lparr>binding_type := 1, address := 0, sym_name := [], sym_flags := 0, lib_ord := 0,
          done_flag := False, addend := 0, segment_index := 0, seg_end_address := 0\<rparr>
        = (BindingState_init is_64)\<lparr>binding_type := 1, index := index s\<rparr>"
    using assms by (simp add: BindingState_init_def)
  then show ?thesis
    by (subst lazy_loop.simps) (simp add: Let_def)
qed

text \<open>
  The two-record blob: the second record binds the empty name of library 0 at address 0,
  not \<^verbatim>\<open>_a\<close> of library 1 at \<open>0x1010\<close>.
\<close>

lemma char_of_bytes:
  "char_of (95 :: nat) = CHR ''_''" "char_of (97 :: nat) = CHR ''a''"
  by code_simp+

lemmas lazy_run_defs = do_bind_generic_def bind_loop.simps opcode_dict_def name_loop.simps
  n_opcode_done_def n_opcode_set_dylib_ordinal_imm_def n_opcode_set_trailing_flags_imm_def
  l_opcode_set_segment_and_offset_uleb_def l_opcode_do_bind_def read_uleb_def uleb_loop.simps
  add_address_ov_def

lemma second_record_run:
  "do_bind_generic default_binding_handler Lazy lazy_blob_two_records
     ((BindingState_init True)\<lparr>binding_type := 1, index := 9\<rparr>) image_after_first_record
   = Inr ((BindingState_init True)
            \<lparr>binding_type := 1, index := 11, seg_end_address := 0x2000, done_flag := True\<rparr>,
          image_after_second_record)"
  by (simp add: lazy_run_defs handler_defs lazy_blob_two_records_def BindingState_init_def
      image_after_first_record_def image_after_second_record_def image_one_segment_def upt_rec)

lemma first_record_run:
  "do_bind_generic default_binding_handler Lazy lazy_blob_two_records
     ((BindingState_init True)\<lparr>binding_type := 1, index := 0\<rparr>) image_one_segment
   = Inr (state_after_first_record, image_after_first_record)"
  by (simp add: lazy_run_defs handler_defs lazy_blob_two_records_def BindingState_init_def
      state_after_first_record_def image_after_first_record_def image_one_segment_def upt_rec
      char_of_bytes)

theorem lazy_record_starts_from_reset_state_witness:
  "wraparound state_after_first_record = 2 ^ 64
   \<and> sizeof_intptr_t state_after_first_record = (if True then 8 else 4)
   \<and> index state_after_first_record < length lazy_blob_two_records
   \<and> sym_name state_after_first_record = ''_a'' \<and> lib_ord state_after_first_record = 1
   \<and> lazy_loop lazy_blob_two_records state_after_first_record image_after_first_record
       = Inr image_after_second_record
   \<and> do_lazy_bind (Some lazy_blob_two_records) image_one_segment
       = Inr image_after_second_record"
proof -
  have h: "wraparound state_after_first_record = 2 ^ 64"
    "sizeof_intptr_t state_after_first_record = (if True then 8 else 4)"
    by (simp_all add: state_after_first_record_def BindingState_init_def)
  have i: "index state_after_first_record = 9" "length lazy_blob_two_records = 11"
    "sym_name state_after_first_record = ''_a''" "lib_ord state_after_first_record = 1"
    by (simp_all add: state_after_first_record_def lazy_blob_two_records_def)
  have e: "lazy_loop lazy_blob_two_records
      ((BindingState_init True)
         \<lparr>binding_type := 1, index := 11, seg_end_address := 0x2000, done_flag := True\<rparr>)
      image_after_second_record = Inr image_after_second_record"
    by (subst lazy_loop.simps) (simp add: lazy_blob_two_records_def)
  have lt: "index state_after_first_record < length lazy_blob_two_records"
    by (simp add: i)
  have second: "lazy_loop lazy_blob_two_records state_after_first_record image_after_first_record
       = Inr image_after_second_record"
    by (subst lazy_record_starts_from_reset_state [OF h])
      (simp only: i(1) second_record_run sum.case prod.case e, simp add: i(2))
  have s0: "wraparound ((BindingState_init (arch_bits image_one_segment = 64))\<lparr>index := 0\<rparr>) = 2 ^ 64"
    "sizeof_intptr_t ((BindingState_init (arch_bits image_one_segment = 64))\<lparr>index := 0\<rparr>)
       = (if True then 8 else 4)"
    by (simp_all add: BindingState_init_def image_one_segment_def)
  have a64: "(arch_bits image_one_segment = 64) = True"
    by (simp add: image_one_segment_def)
  have i0: "index ((BindingState_init True)\<lparr>index := 0\<rparr>) = 0"
    "(0 < length lazy_blob_two_records) = True"
    by (simp_all add: lazy_blob_two_records_def)
  have r0: "(BindingState_init True)\<lparr>index := 0, binding_type := 1, index := 0\<rparr>
            = (BindingState_init True)\<lparr>binding_type := 1, index := 0\<rparr>"
    by simp
  have whole: "do_lazy_bind (Some lazy_blob_two_records) image_one_segment
       = Inr image_after_second_record"
    unfolding do_lazy_bind_def option.case Let_def a64
    by (subst lazy_record_starts_from_reset_state [OF s0 [unfolded a64]])
      (simp only: i0(1) first_record_run sum.case prod.case second r0, simp add: i(2))
  from h lt i(3,4) second whole show ?thesis by (intro conjI)
qed

end
